theory Spec2Isabelle
  imports Complex_Main
begin

section \<open>Retail sales pipeline: \<open>process_data.py\<close>\<close>

text \<open>
  The program is a linear pipeline over one SQLite store:
  \<open>create_database\<close> loads the CSV into table \<open>raw_sales\<close>, \<open>clean_data\<close> derives
  \<open>cleaned_sales\<close> with one \<open>SELECT\<close>, \<open>generate_analytics\<close> runs five aggregate
  queries, \<open>export_to_json\<close> builds the output document.

  The SQL text is embedded expression by expression.  The built-in functions and
  operators it uses (\<open>LOWER\<close>, \<open>TRIM\<close>, \<open>LIKE\<close>, \<open>ABS\<close>, \<open>ROUND\<close>, \<open>SUM\<close>,
  \<open>AVG\<close>, \<open>COUNT\<close>, \<open>=\<close>, \<open>OR\<close>, \<open>CASE\<close>) follow SQLite's documented behaviour.

  Modelling decisions:
  \<^item> Strings are byte lists (UTF-8).  \<open>LOWER\<close>, \<open>LIKE\<close> and \<open>TRIM\<close> of SQLite work on
    ASCII letters and on the space character only, so the byte view is exact.
  \<^item> pandas stores a column of strings as TEXT and a column of numbers as INTEGER
    or REAL, a missing cell as NULL.  The text columns are \<open>string option\<close>, the
    numeric ones \<open>num option\<close>; \<open>None\<close> is NULL.
  \<^item> INTEGER is a 64-bit signed integer: the two places where SQLite raises
    \<open>integer overflow\<close> (\<open>ABS\<close>, \<open>SUM\<close>) are written out.
  \<^item> A REAL is an IEEE double, given by its exact value: a rational number or an
    infinity.  Not-a-number never sits in a table, SQLite turns it into NULL.
    Comparison and \<open>ABS\<close> of doubles are exact and are defined here.  The
    operations that round in binary (the product, \<open>ROUND\<close>, \<open>SUM\<close> and \<open>AVG\<close>
    with a REAL input, the conversion of an INTEGER to REAL) belong to SQLite,
    not to the program: they are a parameter of the model, the \<open>engine\<close>.  Every
    definition below takes the engine, and every theorem holds for every engine
    unless it names a property of the engine as a hypothesis.
\<close>

subsection \<open>Values\<close>

datatype real64 = NegInf | Finite rat | PosInf

datatype num = SqlInt int | SqlReal real64

datatype sqlval = SqlNull | SqlInteger int | SqlFloat real64 | SqlText string

datatype error = OperationalError | IntegerOverflow | TypeError | IndexError

definition in_int64 :: "int \<Rightarrow> bool" where
  "in_int64 i = (- (2 ^ 63) \<le> i \<and> i < 2 ^ 63)"

fun real64_le :: "real64 \<Rightarrow> real64 \<Rightarrow> bool" where
  "real64_le NegInf _ = True"
| "real64_le (Finite a) NegInf = False"
| "real64_le (Finite a) (Finite b) = (a \<le> b)"
| "real64_le (Finite a) PosInf = True"
| "real64_le PosInf NegInf = False"
| "real64_le PosInf (Finite b) = False"
| "real64_le PosInf PosInf = True"

fun real64_abs :: "real64 \<Rightarrow> real64" where
  "real64_abs NegInf = PosInf"
| "real64_abs (Finite a) = Finite \<bar>a\<bar>"
| "real64_abs PosInf = PosInf"

text \<open>The floating-point operations of SQLite.  \<open>None\<close> is not-a-number, which reaches the
  caller as NULL.  The two aggregates receive the list of the non-NULL inputs of one
  group.\<close>

record engine =
  int_to_real :: "int \<Rightarrow> real64"
  real_mul :: "real64 \<Rightarrow> real64 \<Rightarrow> real64 option"
  real_round2 :: "real64 \<Rightarrow> real64"
  real_sum :: "num list \<Rightarrow> real64 option"
  real_avg :: "num list \<Rightarrow> real64 option"

fun to_real :: "engine \<Rightarrow> num \<Rightarrow> real64" where
  "to_real eng (SqlInt i) = int_to_real eng i"
| "to_real eng (SqlReal x) = x"

subsection \<open>Three-valued logic\<close>

text \<open>A condition is true, false or NULL (\<open>None\<close>); a \<open>WHEN\<close> branch is taken only when
  its condition is true.\<close>

definition is_true :: "bool option \<Rightarrow> bool" where
  "is_true b = (b = Some True)"

definition sql_is_null :: "'a option \<Rightarrow> bool option" where
  "sql_is_null v = Some (v = None)"

definition sql_eq :: "string option \<Rightarrow> string option \<Rightarrow> bool option" where
  "sql_eq a b = (case a of None \<Rightarrow> None
                 | Some x \<Rightarrow> (case b of None \<Rightarrow> None | Some y \<Rightarrow> Some (x = y)))"

definition sql_or :: "bool option \<Rightarrow> bool option \<Rightarrow> bool option" where
  "sql_or a b = (if a = Some True \<or> b = Some True then Some True
                 else if a = Some False \<and> b = Some False then Some False
                 else None)"

subsection \<open>String functions\<close>

definition to_lower :: "char \<Rightarrow> char" where
  "to_lower c = (let n = (of_char c :: nat)
                 in if 65 \<le> n \<and> n \<le> 90 then char_of (n + 32) else c)"

definition sql_lower :: "string option \<Rightarrow> string option" where
  "sql_lower = map_option (map to_lower)"

definition trim_spaces :: "string \<Rightarrow> string" where
  "trim_spaces s =
     rev (dropWhile (\<lambda>c. c = CHR '' '') (rev (dropWhile (\<lambda>c. c = CHR '' '') s)))"

definition sql_trim :: "string option \<Rightarrow> string option" where
  "sql_trim = map_option trim_spaces"

text \<open>
  \<open>LIKE\<close>: \<open>%\<close> matches any run of characters, \<open>_\<close> a single one, every other
  pattern character matches itself up to ASCII case (SQLite's default, with
  \<open>case_sensitive_like\<close> off, which the program never changes).  The first argument
  is the pattern.
\<close>

fun like_match :: "string \<Rightarrow> string \<Rightarrow> bool" where
  "like_match [] s = (s = [])"
| "like_match (p # ps) [] = (p = CHR ''%'' \<and> like_match ps [])"
| "like_match (p # ps) (c # cs) =
     (if p = CHR ''%'' then like_match ps (c # cs) \<or> like_match (p # ps) cs
      else if p = CHR ''_'' then like_match ps cs
      else to_lower p = to_lower c \<and> like_match ps cs)"

definition sql_like :: "string option \<Rightarrow> string \<Rightarrow> bool option" where
  "sql_like v pat = map_option (like_match pat) v"

subsection \<open>Numeric functions\<close>

text \<open>\<open>ABS\<close> keeps the storage class; on the least 64-bit integer it raises
  \<open>integer overflow\<close>.\<close>

fun sql_abs :: "num option \<Rightarrow> error + num option" where
  "sql_abs None = Inr None"
| "sql_abs (Some (SqlInt i)) =
     (if i = - (2 ^ 63) then Inl IntegerOverflow else Inr (Some (SqlInt \<bar>i\<bar>)))"
| "sql_abs (Some (SqlReal x)) = Inr (Some (SqlReal (real64_abs x)))"

text \<open>The product of two integers is an integer while it fits into 64 bits; otherwise,
  and whenever an operand is a REAL, both operands are taken as REAL and the engine
  multiplies.\<close>

fun sql_mul :: "engine \<Rightarrow> num option \<Rightarrow> num option \<Rightarrow> num option" where
  "sql_mul eng (Some (SqlInt a)) (Some (SqlInt b)) =
     (if in_int64 (a * b) then Some (SqlInt (a * b))
      else map_option SqlReal (real_mul eng (int_to_real eng a) (int_to_real eng b)))"
| "sql_mul eng (Some a) (Some b) =
     map_option SqlReal (real_mul eng (to_real eng a) (to_real eng b))"
| "sql_mul eng _ _ = None"

text \<open>\<open>ROUND(x, 2)\<close> is NULL on NULL and a REAL otherwise.\<close>

definition sql_round2 :: "engine \<Rightarrow> num option \<Rightarrow> real64 option" where
  "sql_round2 eng = map_option (\<lambda>n. real_round2 eng (to_real eng n))"

subsection \<open>Tables and the store\<close>

record raw_row =
  order_id :: sqlval
  customer_id :: sqlval
  customer_name :: "string option"
  product_name :: "string option"
  category :: "string option"
  quantity :: "num option"
  price :: "num option"
  order_date :: "string option"
  ship_date :: "string option"
  region :: "string option"
  payment_method :: "string option"

record cleaned_row = raw_row +
  total_amount :: "real64 option"

text \<open>The store is the database file: it outlives a run.  A table is absent or a list of
  rows.\<close>

record store =
  raw_sales :: "raw_row list option"
  cleaned_sales :: "cleaned_row list option"

subsection \<open>\<open>create_database\<close>\<close>

text \<open>\<open>df.to_sql('raw_sales', conn, if_exists='replace')\<close>: the data frame read from the
  CSV replaces the raw table; nothing else in the store is touched.\<close>

definition create_database :: "store \<Rightarrow> raw_row list \<Rightarrow> store" where
  "create_database st df = st\<lparr>raw_sales := Some df\<rparr>"

subsection \<open>\<open>clean_data\<close>\<close>

text \<open>The column expressions of \<open>cleaning_sql\<close>, in the order of the \<open>SELECT\<close> list.\<close>

definition clean_customer_name :: "string option \<Rightarrow> string option" where
  "clean_customer_name cn =
     (if is_true (sql_or (sql_eq cn (Some ''NULL'')) (sql_is_null cn))
      then Some ''Unknown Customer''
      else sql_trim cn)"

definition clean_category :: "string option \<Rightarrow> string option" where
  "clean_category c =
     (if is_true (sql_eq (sql_lower c) (Some ''electronics'')) then Some ''Electronics''
      else if is_true (sql_eq (sql_lower c) (Some ''furniture'')) then Some ''Furniture''
      else if is_true (sql_eq (sql_lower c) (Some ''stationery'')) then Some ''Stationery''
      else if is_true (sql_eq (sql_lower c) (Some ''office'')) then Some ''Office''
      else c)"

definition clean_order_date :: "string option \<Rightarrow> string option" where
  "clean_order_date d = (if is_true (sql_like d ''%invalid%'') then None else d)"

definition clean_ship_date :: "string option \<Rightarrow> string option" where
  "clean_ship_date d =
     (if is_true (sql_or (sql_is_null d) (sql_eq d (Some ''''))) then None else d)"

definition clean_row :: "engine \<Rightarrow> raw_row \<Rightarrow> error + cleaned_row" where
  "clean_row eng r =
     (case sql_abs (quantity r) of
        Inl e \<Rightarrow> Inl e
      | Inr q \<Rightarrow>
          Inr \<lparr> order_id = order_id r,
                customer_id = customer_id r,
                customer_name = clean_customer_name (customer_name r),
                product_name = sql_trim (product_name r),
                category = clean_category (category r),
                quantity = q,
                price = price r,
                order_date = clean_order_date (order_date r),
                ship_date = clean_ship_date (ship_date r),
                region = region r,
                payment_method = payment_method r,
                total_amount = sql_round2 eng (sql_mul eng q (price r)) \<rparr>)"

text \<open>A \<open>SELECT\<close> that raises on one row yields no rows at all.\<close>

fun select_rows :: "('a \<Rightarrow> error + 'b) \<Rightarrow> 'a list \<Rightarrow> error + 'b list" where
  "select_rows f [] = Inr []"
| "select_rows f (x # xs) =
     (case f x of
        Inl e \<Rightarrow> Inl e
      | Inr y \<Rightarrow> (case select_rows f xs of Inl e \<Rightarrow> Inl e | Inr ys \<Rightarrow> Inr (y # ys)))"

text \<open>\<open>CREATE TABLE IF NOT EXISTS cleaned_sales AS SELECT ... FROM raw_sales\<close>: nothing
  happens when the table exists; otherwise the query runs, and the table is created
  only if it succeeds.\<close>

definition create_cleaned_if_not_exists :: "engine \<Rightarrow> store \<Rightarrow> store \<times> error option" where
  "create_cleaned_if_not_exists eng st =
     (case cleaned_sales st of
        Some _ \<Rightarrow> (st, None)
      | None \<Rightarrow>
          (case raw_sales st of
             None \<Rightarrow> (st, Some OperationalError)
           | Some rows \<Rightarrow>
               (case select_rows (clean_row eng) rows of
                  Inl e \<Rightarrow> (st, Some e)
                | Inr cs \<Rightarrow> (st\<lparr>cleaned_sales := Some cs\<rparr>, None))))"

text \<open>\<open>DROP TABLE IF EXISTS cleaned_sales\<close>, then the statement above.  The result is the
  store left behind and the exception raised, if any.\<close>

definition clean_data :: "engine \<Rightarrow> store \<Rightarrow> store \<times> error option" where
  "clean_data eng st = create_cleaned_if_not_exists eng (st\<lparr>cleaned_sales := None\<rparr>)"

subsection \<open>Aggregate functions, grouping and ordering\<close>

fun non_null :: "'a option list \<Rightarrow> 'a list" where
  "non_null [] = []"
| "non_null (None # vs) = non_null vs"
| "non_null (Some v # vs) = v # non_null vs"

text \<open>
  \<open>SUM\<close> skips NULL and is NULL when nothing is left.  When every input is an integer
  the result is their integer sum, and the call raises \<open>integer overflow\<close> if a partial
  sum leaves the 64-bit range.  As soon as one input is a REAL the result is a REAL, an
  approximation of the sum that the engine computes.
\<close>

fun all_ints :: "num list \<Rightarrow> int list option" where
  "all_ints [] = Some []"
| "all_ints (SqlInt i # vs) = map_option ((#) i) (all_ints vs)"
| "all_ints (SqlReal x # vs) = None"

fun checked_sum :: "int \<Rightarrow> int list \<Rightarrow> int option" where
  "checked_sum s [] = Some s"
| "checked_sum s (i # js) = (if in_int64 (s + i) then checked_sum (s + i) js else None)"

definition sql_sum :: "engine \<Rightarrow> num option list \<Rightarrow> error + num option" where
  "sql_sum eng vs =
     (case non_null vs of
        [] \<Rightarrow> Inr None
      | x # xs \<Rightarrow>
          (case all_ints (x # xs) of
             Some js \<Rightarrow> (case checked_sum 0 js of
                          None \<Rightarrow> Inl IntegerOverflow
                        | Some s \<Rightarrow> Inr (Some (SqlInt s)))
           | None \<Rightarrow> Inr (map_option SqlReal (real_sum eng (x # xs)))))"

text \<open>\<open>SUM\<close> and \<open>AVG\<close> over \<open>total_amount\<close>, a column of REAL and NULL.\<close>

definition sql_sum_real :: "engine \<Rightarrow> real64 option list \<Rightarrow> real64 option" where
  "sql_sum_real eng vs =
     (case non_null vs of [] \<Rightarrow> None | x # xs \<Rightarrow> real_sum eng (map SqlReal (x # xs)))"

definition sql_avg_real :: "engine \<Rightarrow> real64 option list \<Rightarrow> real64 option" where
  "sql_avg_real eng vs =
     (case non_null vs of [] \<Rightarrow> None | x # xs \<Rightarrow> real_avg eng (map SqlReal (x # xs)))"

text \<open>\<open>COUNT(DISTINCT c)\<close> counts the different non-NULL values.  An integer and a REAL
  of the same value are the same value; a text never equals a number.\<close>

fun canon :: "sqlval \<Rightarrow> sqlval" where
  "canon (SqlFloat (Finite x)) =
     (if of_int \<lfloor>x\<rfloor> = x then SqlInteger \<lfloor>x\<rfloor> else SqlFloat (Finite x))"
| "canon v = v"

definition count_distinct :: "sqlval list \<Rightarrow> nat" where
  "count_distinct vs = length (remdups (map canon (filter (\<lambda>v. v \<noteq> SqlNull) vs)))"

text \<open>\<open>GROUP BY\<close>: one group per different key, NULL being a key like any other.\<close>

definition group_keys :: "('r \<Rightarrow> 'k) \<Rightarrow> 'r list \<Rightarrow> 'k list" where
  "group_keys key rows = remdups (map key rows)"

definition group_rows :: "('r \<Rightarrow> 'k) \<Rightarrow> 'r list \<Rightarrow> 'k \<Rightarrow> 'r list" where
  "group_rows key rows k = filter (\<lambda>r. key r = k) rows"

text \<open>
  \<open>ORDER BY\<close> is an insertion sort along a comparison.  NULL sorts before every value;
  text compares byte by byte (collation \<open>BINARY\<close>).  SQL leaves the arrangement of rows
  with equal sort keys to the engine.  SQLite arranges the tied groups of a view without
  \<open>LIMIT\<close> by descending group key and those of a view with \<open>LIMIT\<close> by ascending group
  key; the comparisons of the queries below do the same, so that each is a total order
  on the groups of a view and the sorted view does not depend on the order in which the
  groups are met.
\<close>

fun insert_by :: "('a \<Rightarrow> 'a \<Rightarrow> bool) \<Rightarrow> 'a \<Rightarrow> 'a list \<Rightarrow> 'a list" where
  "insert_by le x [] = [x]"
| "insert_by le x (y # ys) = (if le x y then x # y # ys else y # insert_by le x ys)"

definition order_by :: "('a \<Rightarrow> 'a \<Rightarrow> bool) \<Rightarrow> 'a list \<Rightarrow> 'a list" where
  "order_by le xs = foldr (insert_by le) xs []"

fun null_le :: "('a \<Rightarrow> 'a \<Rightarrow> bool) \<Rightarrow> 'a option \<Rightarrow> 'a option \<Rightarrow> bool" where
  "null_le le None _ = True"
| "null_le le (Some a) None = False"
| "null_le le (Some a) (Some b) = le a b"

fun bytes_le :: "string \<Rightarrow> string \<Rightarrow> bool" where
  "bytes_le [] _ = True"
| "bytes_le (c # cs) [] = False"
| "bytes_le (c # cs) (d # ds) =
     ((of_char c :: nat) < of_char d \<or> (c = d \<and> bytes_le cs ds))"

text \<open>First by \<open>le1\<close>, and among rows that \<open>le1\<close> ties by \<open>le2\<close>.\<close>

definition lex_le :: "('a \<Rightarrow> 'a \<Rightarrow> bool) \<Rightarrow> ('a \<Rightarrow> 'a \<Rightarrow> bool) \<Rightarrow> 'a \<Rightarrow> 'a \<Rightarrow> bool" where
  "lex_le le1 le2 a b = ((le1 a b \<and> \<not> le1 b a) \<or> (le1 a b \<and> le1 b a \<and> le2 a b))"

subsection \<open>\<open>generate_analytics\<close>\<close>

record category_entry =
  cat_category :: "string option"
  cat_total_orders :: nat
  cat_total_units_sold :: "num option"
  cat_total_revenue :: "real64 option"
  cat_avg_order_value :: "real64 option"

record regional_entry =
  reg_region :: "string option"
  reg_total_orders :: nat
  reg_total_revenue :: "real64 option"
  reg_unique_customers :: nat

record daily_entry =
  day_order_date :: "string option"
  day_orders :: nat
  day_revenue :: "real64 option"

record product_entry =
  prod_product_name :: "string option"
  prod_category :: "string option"
  prod_units_sold :: "num option"
  prod_revenue :: "real64 option"

record summary_row =
  sum_total_revenue :: "real64 option"
  sum_total_orders :: nat
  sum_total_customers :: nat
  sum_avg_order_value :: "real64 option"

record analytics =
  an_category :: "category_entry list"
  an_regional :: "regional_entry list"
  an_daily :: "daily_entry list"
  an_product :: "product_entry list"
  an_summary :: summary_row

text \<open>\<open>ROUND(SUM(total_amount), 2)\<close> and \<open>ROUND(AVG(total_amount), 2)\<close> over the rows of
  a group.\<close>

definition revenue_of :: "engine \<Rightarrow> cleaned_row list \<Rightarrow> real64 option" where
  "revenue_of eng g = map_option (real_round2 eng) (sql_sum_real eng (map total_amount g))"

definition average_of :: "engine \<Rightarrow> cleaned_row list \<Rightarrow> real64 option" where
  "average_of eng g = map_option (real_round2 eng) (sql_avg_real eng (map total_amount g))"

definition category_group ::
  "engine \<Rightarrow> cleaned_row list \<Rightarrow> string option \<Rightarrow> error + category_entry" where
  "category_group eng rows k =
     (let g = group_rows category rows k
      in case sql_sum eng (map quantity g) of
           Inl e \<Rightarrow> Inl e
         | Inr units \<Rightarrow>
             Inr \<lparr> cat_category = k,
                   cat_total_orders = length g,
                   cat_total_units_sold = units,
                   cat_total_revenue = revenue_of eng g,
                   cat_avg_order_value = average_of eng g \<rparr>)"

text \<open>\<open>ORDER BY total_revenue DESC\<close>, tied categories by descending name.\<close>

definition category_order :: "category_entry \<Rightarrow> category_entry \<Rightarrow> bool" where
  "category_order =
     lex_le (\<lambda>a b. null_le real64_le (cat_total_revenue b) (cat_total_revenue a))
            (\<lambda>a b. null_le bytes_le (cat_category b) (cat_category a))"

definition category_query :: "engine \<Rightarrow> cleaned_row list \<Rightarrow> error + category_entry list" where
  "category_query eng rows =
     (case select_rows (category_group eng rows) (group_keys category rows) of
        Inl e \<Rightarrow> Inl e
      | Inr es \<Rightarrow> Inr (order_by category_order es))"

definition regional_group :: "engine \<Rightarrow> cleaned_row list \<Rightarrow> string option \<Rightarrow> regional_entry" where
  "regional_group eng rows k =
     (let g = group_rows region rows k
      in \<lparr> reg_region = k,
            reg_total_orders = length g,
            reg_total_revenue = revenue_of eng g,
            reg_unique_customers = count_distinct (map customer_id g) \<rparr>)"

text \<open>\<open>ORDER BY total_revenue DESC\<close>, tied regions by descending name.\<close>

definition regional_order :: "regional_entry \<Rightarrow> regional_entry \<Rightarrow> bool" where
  "regional_order =
     lex_le (\<lambda>a b. null_le real64_le (reg_total_revenue b) (reg_total_revenue a))
            (\<lambda>a b. null_le bytes_le (reg_region b) (reg_region a))"

definition regional_query :: "engine \<Rightarrow> cleaned_row list \<Rightarrow> regional_entry list" where
  "regional_query eng rows =
     order_by regional_order (map (regional_group eng rows) (group_keys region rows))"

definition daily_group :: "engine \<Rightarrow> cleaned_row list \<Rightarrow> string option \<Rightarrow> daily_entry" where
  "daily_group eng rows k =
     (let g = group_rows order_date rows k
      in \<lparr> day_order_date = k,
            day_orders = length g,
            day_revenue = revenue_of eng g \<rparr>)"

text \<open>\<open>WHERE order_date IS NOT NULL ... ORDER BY order_date\<close>: the dates of different
  groups differ, so there are no ties.\<close>

definition daily_query :: "engine \<Rightarrow> cleaned_row list \<Rightarrow> daily_entry list" where
  "daily_query eng rows =
     (let dated = filter (\<lambda>r. order_date r \<noteq> None) rows
      in order_by (\<lambda>a b. null_le bytes_le (day_order_date a) (day_order_date b))
           (map (daily_group eng dated) (group_keys order_date dated)))"

definition product_group ::
  "engine \<Rightarrow> cleaned_row list \<Rightarrow> string option \<times> string option \<Rightarrow> error + product_entry" where
  "product_group eng rows k =
     (let g = group_rows (\<lambda>r. (product_name r, category r)) rows k
      in case sql_sum eng (map quantity g) of
           Inl e \<Rightarrow> Inl e
         | Inr units \<Rightarrow>
             Inr \<lparr> prod_product_name = fst k,
                   prod_category = snd k,
                   prod_units_sold = units,
                   prod_revenue = revenue_of eng g \<rparr>)"

text \<open>\<open>ORDER BY revenue DESC LIMIT 10\<close>, tied products by ascending product name, then
  ascending category.\<close>

definition product_order :: "product_entry \<Rightarrow> product_entry \<Rightarrow> bool" where
  "product_order =
     lex_le (\<lambda>a b. null_le real64_le (prod_revenue b) (prod_revenue a))
       (lex_le (\<lambda>a b. null_le bytes_le (prod_product_name a) (prod_product_name b))
               (\<lambda>a b. null_le bytes_le (prod_category a) (prod_category b)))"

definition product_query :: "engine \<Rightarrow> cleaned_row list \<Rightarrow> error + product_entry list" where
  "product_query eng rows =
     (case select_rows (product_group eng rows)
             (group_keys (\<lambda>r. (product_name r, category r)) rows) of
        Inl e \<Rightarrow> Inl e
      | Inr es \<Rightarrow> Inr (take 10 (order_by product_order es)))"

text \<open>The summary query has no \<open>GROUP BY\<close>: it returns exactly one row, also over an empty
  table.\<close>

definition summary_query :: "engine \<Rightarrow> cleaned_row list \<Rightarrow> summary_row" where
  "summary_query eng rows =
     \<lparr> sum_total_revenue = revenue_of eng rows,
       sum_total_orders = length rows,
       sum_total_customers = count_distinct (map customer_id rows),
       sum_avg_order_value = average_of eng rows \<rparr>"

definition generate_analytics :: "engine \<Rightarrow> store \<Rightarrow> error + analytics" where
  "generate_analytics eng st =
     (case cleaned_sales st of
        None \<Rightarrow> Inl OperationalError
      | Some rows \<Rightarrow>
          (case category_query eng rows of
             Inl e \<Rightarrow> Inl e
           | Inr cats \<Rightarrow>
               (case product_query eng rows of
                  Inl e \<Rightarrow> Inl e
                | Inr prods \<Rightarrow>
                    Inr \<lparr> an_category = cats,
                          an_regional = regional_query eng rows,
                          an_daily = daily_query eng rows,
                          an_product = prods,
                          an_summary = summary_query eng rows \<rparr>)))"

subsection \<open>\<open>export_to_json\<close>\<close>

text \<open>
  pandas hands a NULL of the one-row summary to Python as \<open>None\<close>, and \<open>float(None)\<close>
  raises \<open>TypeError\<close>.  The counts are never NULL.  The four list views become lists of
  records as they are.
\<close>

record summary_doc =
  total_revenue :: real64
  total_orders :: int
  total_customers :: int
  avg_order_value :: real64

record document =
  doc_summary :: summary_doc
  doc_category :: "category_entry list"
  doc_regional :: "regional_entry list"
  doc_daily :: "daily_entry list"
  doc_product :: "product_entry list"

definition py_float :: "real64 option \<Rightarrow> error + real64" where
  "py_float v = (case v of None \<Rightarrow> Inl TypeError | Some x \<Rightarrow> Inr x)"

definition py_int :: "nat \<Rightarrow> error + int" where
  "py_int n = Inr (int n)"

definition export_to_json :: "analytics \<Rightarrow> error + document" where
  "export_to_json a =
     (case py_float (sum_total_revenue (an_summary a)) of
        Inl e \<Rightarrow> Inl e
      | Inr tr \<Rightarrow>
     (case py_int (sum_total_orders (an_summary a)) of
        Inl e \<Rightarrow> Inl e
      | Inr n \<Rightarrow>
     (case py_int (sum_total_customers (an_summary a)) of
        Inl e \<Rightarrow> Inl e
      | Inr c \<Rightarrow>
     (case py_float (sum_avg_order_value (an_summary a)) of
        Inl e \<Rightarrow> Inl e
      | Inr av \<Rightarrow>
          Inr \<lparr> doc_summary = \<lparr> total_revenue = tr, total_orders = n,
                                 total_customers = c, avg_order_value = av \<rparr>,
                doc_category = an_category a,
                doc_regional = an_regional a,
                doc_daily = an_daily a,
                doc_product = an_product a \<rparr>))))"

subsection \<open>The \<open>__main__\<close> block\<close>

text \<open>
  A run starts from the store an earlier run left and the data frame read from the
  CSV.  It yields the store it leaves, the document written to the output file (if the
  exporter got that far) and the exception that ended it (if any).  After the export
  the script prints the first row of the category view, \<open>iloc[0]\<close>, which raises
  \<open>IndexError\<close> on an empty view.
\<close>

definition main ::
  "engine \<Rightarrow> store \<Rightarrow> raw_row list \<Rightarrow> store \<times> document option \<times> error option" where
  "main eng st df =
     (let st1 = create_database st df;
          (st2, failed) = clean_data eng st1
      in case failed of
           Some e \<Rightarrow> (st2, None, Some e)
         | None \<Rightarrow>
             (case generate_analytics eng st2 of
                Inl e \<Rightarrow> (st2, None, Some e)
              | Inr a \<Rightarrow>
                  (case export_to_json a of
                     Inl e \<Rightarrow> (st2, None, Some e)
                   | Inr d \<Rightarrow>
                       (case an_category a of
                          [] \<Rightarrow> (st2, Some d, Some IndexError)
                        | _ # _ \<Rightarrow> (st2, Some d, None)))))"

section \<open>Vocabulary of the specification\<close>

text \<open>Predicates that the specification's sentences use, kept apart from the program.\<close>

text \<open>A string contains a needle as a substring, compared byte for byte (case-sensitively).\<close>

fun contains_cs :: "string \<Rightarrow> string \<Rightarrow> bool" where
  "contains_cs n [] = (n = [])"
| "contains_cs n (c # cs) = (take (length n) (c # cs) = n \<or> contains_cs n cs)"

text \<open>Whitespace in the usual sense: space, tab, line feed, vertical tab, form feed,
  carriage return.\<close>

definition is_whitespace :: "char \<Rightarrow> bool" where
  "is_whitespace c = (c \<in> {CHR '' '', CHR 0x09, CHR 0x0A, CHR 0x0B, CHR 0x0C, CHR 0x0D})"

text \<open>The four canonical categories: lower-case form and capitalized label.\<close>

definition canonical_labels :: "(string \<times> string) list" where
  "canonical_labels =
     [(''electronics'', ''Electronics''), (''furniture'', ''Furniture''),
      (''stationery'', ''Stationery''), (''office'', ''Office'')]"

definition canonical_category :: "string option \<Rightarrow> string option" where
  "canonical_category c =
     (case c of
        None \<Rightarrow> None
      | Some s \<Rightarrow> (case map_of canonical_labels (map to_lower s) of
                     Some l \<Rightarrow> Some l
                   | None \<Rightarrow> Some s))"



text \<open>The least 64-bit integer, the one value on which \<open>ABS\<close> raises.\<close>

definition abs_overflows :: "raw_row \<Rightarrow> bool" where
  "abs_overflows r = (quantity r = Some (SqlInt (- (2 ^ 63))))"

section \<open>Properties of floating-point arithmetic\<close>


section \<open>Sample data\<close>

subsection \<open>An engine without rounding error\<close>

text \<open>
  This engine computes products, sums and quotients exactly and rounds the exact value to
  the nearest hundredth, halves away from zero.  It returns what SQLite returns as long as
  the operands, the intermediate results and the results are numbers that a double holds
  exactly.  Every number of the sample data is a binary fraction chosen that way.
\<close>

fun real64_sgn :: "real64 \<Rightarrow> int" where
  "real64_sgn NegInf = - 1"
| "real64_sgn (Finite a) = (if a < 0 then - 1 else if a = 0 then 0 else 1)"
| "real64_sgn PosInf = 1"

fun exact_mul :: "real64 \<Rightarrow> real64 \<Rightarrow> real64 option" where
  "exact_mul (Finite a) (Finite b) = Some (Finite (a * b))"
| "exact_mul x y =
     (let s = real64_sgn x * real64_sgn y
      in if s = 0 then None else if 0 < s then Some PosInf else Some NegInf)"

definition round2 :: "rat \<Rightarrow> rat" where
  "round2 x = (if x < 0 then - (of_int \<lfloor>- x * 100 + 1 / 2\<rfloor> / 100)
               else of_int \<lfloor>x * 100 + 1 / 2\<rfloor> / 100)"

fun exact_round2 :: "real64 \<Rightarrow> real64" where
  "exact_round2 (Finite a) = Finite (round2 a)"
| "exact_round2 x = x"

fun exact_add :: "real64 \<Rightarrow> real64 \<Rightarrow> real64 option" where
  "exact_add (Finite a) (Finite b) = Some (Finite (a + b))"
| "exact_add PosInf NegInf = None"
| "exact_add NegInf PosInf = None"
| "exact_add PosInf _ = Some PosInf"
| "exact_add _ PosInf = Some PosInf"
| "exact_add NegInf _ = Some NegInf"
| "exact_add _ NegInf = Some NegInf"

fun exact_real :: "num \<Rightarrow> real64" where
  "exact_real (SqlInt i) = Finite (of_int i)"
| "exact_real (SqlReal x) = x"

fun exact_sum_from :: "real64 option \<Rightarrow> num list \<Rightarrow> real64 option" where
  "exact_sum_from acc [] = acc"
| "exact_sum_from None (v # vs) = None"
| "exact_sum_from (Some s) (v # vs) = exact_sum_from (exact_add s (exact_real v)) vs"

definition exact_avg :: "num list \<Rightarrow> real64 option" where
  "exact_avg vs =
     (case exact_sum_from (Some (Finite 0)) vs of
        Some (Finite s) \<Rightarrow> Some (Finite (s / of_nat (length vs)))
      | other \<Rightarrow> other)"

definition exact_engine :: engine where
  "exact_engine =
     \<lparr> int_to_real = (\<lambda>i. Finite (of_int i)),
       real_mul = exact_mul,
       real_round2 = exact_round2,
       real_sum = exact_sum_from (Some (Finite 0)),
       real_avg = exact_avg \<rparr>"

subsection \<open>Tables\<close>

text \<open>The raw row of the specification's example, and two more rows.\<close>

definition sample_row :: raw_row where
  "sample_row =
     \<lparr> order_id = SqlInteger 1001, customer_id = SqlText ''C001'',
       customer_name = Some ''NULL'', product_name = Some '' Laptop '',
       category = Some ''ELECTRONICS'', quantity = Some (SqlInt (- 3)),
       price = Some (SqlReal (Finite 10)), order_date = Some ''2024-01-05-invalid'',
       ship_date = Some [], region = Some ''North'', payment_method = Some ''Card'' \<rparr>"

definition sample_row2 :: raw_row where
  "sample_row2 =
     \<lparr> order_id = SqlInteger 1002, customer_id = SqlText ''C002'',
       customer_name = Some ''  Ann Lee '', product_name = Some ''Desk'',
       category = None, quantity = Some (SqlInt 2),
       price = Some (SqlReal (Finite (19 / 4))), order_date = Some ''2024-01-06'',
       ship_date = Some ''2024-01-09'', region = Some ''South'', payment_method = None \<rparr>"

definition sample_row3 :: raw_row where
  "sample_row3 =
     \<lparr> order_id = SqlInteger 1003, customer_id = SqlText ''C001'',
       customer_name = Some ''  NULL  '', product_name = Some ''Pen'',
       category = Some ''Garden'', quantity = Some (SqlInt 1),
       price = Some (SqlReal (Finite (1281 / 512))), order_date = Some ''2024-01-06'',
       ship_date = None, region = Some ''North'', payment_method = Some ''Cash'' \<rparr>"

definition sample_rows :: "raw_row list" where
  "sample_rows = [sample_row, sample_row2, sample_row3]"

definition empty_store :: store where
  "empty_store = \<lparr> raw_sales = None, cleaned_sales = None \<rparr>"

definition sample_store :: store where
  "sample_store = \<lparr> raw_sales = Some sample_rows, cleaned_sales = None \<rparr>"

text \<open>Rows that differ from the sample in one cell.\<close>

definition upper_invalid_row :: raw_row where
  "upper_invalid_row = sample_row\<lparr>order_date := Some ''2024-01-05-INVALID''\<rparr>"

definition tab_null_row :: raw_row where
  "tab_null_row = sample_row\<lparr>customer_name := Some (CHR 0x09 # ''NULL'')\<rparr>"


definition least_quantity_row :: raw_row where
  "least_quantity_row = sample_row\<lparr>quantity := Some (SqlInt (- (2 ^ 63)))\<rparr>"

text \<open>The cleaned rows expected for \<open>sample_rows\<close>, written out by hand.\<close>

definition sample_cleaned :: "cleaned_row list" where
  "sample_cleaned =
     [\<lparr> order_id = SqlInteger 1001, customer_id = SqlText ''C001'',
        customer_name = Some ''Unknown Customer'', product_name = Some ''Laptop'',
        category = Some ''Electronics'', quantity = Some (SqlInt 3),
        price = Some (SqlReal (Finite 10)), order_date = None,
        ship_date = None, region = Some ''North'', payment_method = Some ''Card'',
        total_amount = Some (Finite 30) \<rparr>,
      \<lparr> order_id = SqlInteger 1002, customer_id = SqlText ''C002'',
        customer_name = Some ''Ann Lee'', product_name = Some ''Desk'',
        category = None, quantity = Some (SqlInt 2),
        price = Some (SqlReal (Finite (19 / 4))), order_date = Some ''2024-01-06'',
        ship_date = Some ''2024-01-09'', region = Some ''South'', payment_method = None,
        total_amount = Some (Finite (19 / 2)) \<rparr>,
      \<lparr> order_id = SqlInteger 1003, customer_id = SqlText ''C001'',
        customer_name = Some ''NULL'', product_name = Some ''Pen'',
        category = Some ''Garden'', quantity = Some (SqlInt 1),
        price = Some (SqlReal (Finite (1281 / 512))), order_date = Some ''2024-01-06'',
        ship_date = None, region = Some ''North'', payment_method = Some ''Cash'',
        total_amount = Some (Finite (5 / 2)) \<rparr>]"

definition sample_cleaned_store :: store where
  "sample_cleaned_store = \<lparr> raw_sales = Some sample_rows, cleaned_sales = Some sample_cleaned \<rparr>"

text \<open>A store in which an earlier run on other data left a cleaned table of one row.\<close>

definition stale_store :: store where
  "stale_store = \<lparr> raw_sales = Some sample_rows, cleaned_sales = Some [hd sample_cleaned] \<rparr>"

definition upper_invalid_store :: store where
  "upper_invalid_store = \<lparr> raw_sales = Some [upper_invalid_row], cleaned_sales = None \<rparr>"

definition tab_null_store :: store where
  "tab_null_store = \<lparr> raw_sales = Some [tab_null_row], cleaned_sales = None \<rparr>"


text \<open>A raw table of two rows, the second with the least 64-bit integer as quantity, in a
  store that holds the cleaned table of an earlier run.\<close>

definition least_quantity_store :: store where
  "least_quantity_store =
     \<lparr> raw_sales = Some [sample_row2, least_quantity_row],
       cleaned_sales = Some sample_cleaned \<rparr>"

text \<open>The five views expected for \<open>sample_cleaned\<close>, written out by hand.\<close>

definition sample_analytics :: analytics where
  "sample_analytics =
     \<lparr> an_category =
         [\<lparr> cat_category = Some ''Electronics'', cat_total_orders = 1,
            cat_total_units_sold = Some (SqlInt 3), cat_total_revenue = Some (Finite 30),
            cat_avg_order_value = Some (Finite 30) \<rparr>,
          \<lparr> cat_category = None, cat_total_orders = 1,
            cat_total_units_sold = Some (SqlInt 2), cat_total_revenue = Some (Finite (19 / 2)),
            cat_avg_order_value = Some (Finite (19 / 2)) \<rparr>,
          \<lparr> cat_category = Some ''Garden'', cat_total_orders = 1,
            cat_total_units_sold = Some (SqlInt 1), cat_total_revenue = Some (Finite (5 / 2)),
            cat_avg_order_value = Some (Finite (5 / 2)) \<rparr>],
       an_regional =
         [\<lparr> reg_region = Some ''North'', reg_total_orders = 2,
            reg_total_revenue = Some (Finite (65 / 2)), reg_unique_customers = 1 \<rparr>,
          \<lparr> reg_region = Some ''South'', reg_total_orders = 1,
            reg_total_revenue = Some (Finite (19 / 2)), reg_unique_customers = 1 \<rparr>],
       an_daily =
         [\<lparr> day_order_date = Some ''2024-01-06'', day_orders = 2,
            day_revenue = Some (Finite 12) \<rparr>],
       an_product =
         [\<lparr> prod_product_name = Some ''Laptop'', prod_category = Some ''Electronics'',
            prod_units_sold = Some (SqlInt 3), prod_revenue = Some (Finite 30) \<rparr>,
          \<lparr> prod_product_name = Some ''Desk'', prod_category = None,
            prod_units_sold = Some (SqlInt 2), prod_revenue = Some (Finite (19 / 2)) \<rparr>,
          \<lparr> prod_product_name = Some ''Pen'', prod_category = Some ''Garden'',
            prod_units_sold = Some (SqlInt 1), prod_revenue = Some (Finite (5 / 2)) \<rparr>],
       an_summary =
         \<lparr> sum_total_revenue = Some (Finite 42), sum_total_orders = 3,
           sum_total_customers = 2, sum_avg_order_value = Some (Finite 14) \<rparr> \<rparr>"

text \<open>Twelve rows with twelve different product names \<open>a\<close> to \<open>l\<close> and the amounts
  \<open>0, 0, 1, 1, \<dots>, 5, 5\<close>.\<close>

definition twelve_products :: "cleaned_row list" where
  "twelve_products =
     map (\<lambda>i. (hd sample_cleaned)\<lparr> product_name := Some [char_of (97 + i)],
                                     total_amount := Some (Finite (of_nat (i div 2))) \<rparr>)
       [0..<12]"

definition twelve_store :: store where
  "twelve_store = \<lparr> raw_sales = None, cleaned_sales = Some twelve_products \<rparr>"

text \<open>The store after a run on a header-only CSV, and the views computed from it.\<close>

definition empty_run_store :: store where
  "empty_run_store = \<lparr> raw_sales = Some [], cleaned_sales = Some [] \<rparr>"

definition empty_analytics :: analytics where
  "empty_analytics =
     \<lparr> an_category = [], an_regional = [], an_daily = [], an_product = [],
       an_summary = \<lparr> sum_total_revenue = None, sum_total_orders = 0,
                      sum_total_customers = 0, sum_avg_order_value = None \<rparr> \<rparr>"

section \<open>Properties of the Cleaner\<close>

subsection \<open>Substring test and \<open>LIKE\<close>\<close>

lemma contains_cs_iff: "contains_cs n s \<longleftrightarrow> (\<exists>pre post. s = pre @ n @ post)"
proof (induction s)
  case Nil
  then show ?case by auto
next
  case (Cons c cs)
  show ?case
  proof
    assume "contains_cs n (c # cs)"
    then consider "take (length n) (c # cs) = n" | "contains_cs n cs" by auto
    then show "\<exists>pre post. c # cs = pre @ n @ post"
    proof cases
      case 1
      then have "c # cs = [] @ n @ drop (length n) (c # cs)"
        by (metis append_Nil append_take_drop_id)
      then show ?thesis by blast
    next
      case 2
      then obtain pre post where "cs = pre @ n @ post" using Cons.IH by blast
      then have "c # cs = (c # pre) @ n @ post" by simp
      then show ?thesis by blast
    qed
  next
    assume "\<exists>pre post. c # cs = pre @ n @ post"
    then obtain pre post where eq: "c # cs = pre @ n @ post" by blast
    show "contains_cs n (c # cs)"
    proof (cases pre)
      case Nil
      with eq have "take (length n) (c # cs) = n" by simp
      then show ?thesis by simp
    next
      case (Cons p pre')
      with eq have "cs = pre' @ n @ post" by simp
      then show ?thesis using Cons.IH by auto
    qed
  qed
qed

lemma like_percent:
  "like_match (CHR ''%'' # ps) s \<longleftrightarrow> (\<exists>k\<le>length s. like_match ps (drop k s))"
proof (induction s)
  case Nil
  then show ?case by simp
next
  case (Cons c cs)
  have "(\<exists>k\<le>length (c # cs). like_match ps (drop k (c # cs)))
        \<longleftrightarrow> like_match ps (c # cs) \<or> (\<exists>k\<le>length cs. like_match ps (drop k cs))"
  proof
    assume "\<exists>k\<le>length (c # cs). like_match ps (drop k (c # cs))"
    then obtain k where k: "k \<le> length (c # cs)" "like_match ps (drop k (c # cs))" by blast
    show "like_match ps (c # cs) \<or> (\<exists>k\<le>length cs. like_match ps (drop k cs))"
    proof (cases k)
      case 0
      with k show ?thesis by simp
    next
      case (Suc j)
      with k have "j \<le> length cs" "like_match ps (drop j cs)" by simp_all
      then show ?thesis by blast
    qed
  next
    assume "like_match ps (c # cs) \<or> (\<exists>k\<le>length cs. like_match ps (drop k cs))"
    then show "\<exists>k\<le>length (c # cs). like_match ps (drop k (c # cs))"
    proof
      assume "like_match ps (c # cs)"
      then have "like_match ps (drop 0 (c # cs))" by simp
      then show ?thesis by blast
    next
      assume "\<exists>k\<le>length cs. like_match ps (drop k cs)"
      then obtain k where "k \<le> length cs" "like_match ps (drop k cs)" by blast
      then have "Suc k \<le> length (c # cs)" "like_match ps (drop (Suc k) (c # cs))" by simp_all
      then show ?thesis by blast
    qed
  qed
  with Cons.IH show ?case by simp
qed

lemma like_literal:
  assumes "CHR ''%'' \<notin> set q" "CHR ''_'' \<notin> set q"
  shows "like_match (q @ rest) s \<longleftrightarrow>
         length q \<le> length s \<and> map to_lower (take (length q) s) = map to_lower q
         \<and> like_match rest (drop (length q) s)"
  using assms
proof (induction q arbitrary: s)
  case Nil
  then show ?case by simp
next
  case (Cons p q)
  show ?case
  proof (cases s)
    case Nil
    with Cons.prems show ?thesis by auto
  next
    case (Cons c cs)
    with Cons.prems Cons.IH [of cs] show ?thesis by auto
  qed
qed

lemma like_percent_only: "like_match [CHR ''%''] s"
  by (induction s) simp_all

lemma lower_invalid:
  "to_lower CHR ''i'' = CHR ''i''" "to_lower CHR ''n'' = CHR ''n''"
  "to_lower CHR ''v'' = CHR ''v''" "to_lower CHR ''a'' = CHR ''a''"
  "to_lower CHR ''l'' = CHR ''l''" "to_lower CHR ''d'' = CHR ''d''"
  by code_simp+

lemma contains_cs_drop:
  "contains_cs n s \<longleftrightarrow> (\<exists>k\<le>length s. take (length n) (drop k s) = n)"
proof -
  have "(\<exists>pre post. s = pre @ n @ post) \<longleftrightarrow> (\<exists>k\<le>length s. take (length n) (drop k s) = n)"
  proof
    assume "\<exists>pre post. s = pre @ n @ post"
    then obtain pre post where "s = pre @ n @ post" by blast
    then have "length pre \<le> length s" "take (length n) (drop (length pre) s) = n" by simp_all
    then show "\<exists>k\<le>length s. take (length n) (drop k s) = n" by blast
  next
    assume "\<exists>k\<le>length s. take (length n) (drop k s) = n"
    then obtain k where "take (length n) (drop k s) = n" by blast
    then have "s = take k s @ n @ drop (length n) (drop k s)"
      by (metis append_take_drop_id)
    then show "\<exists>pre post. s = pre @ n @ post" by blast
  qed
  then show ?thesis by (simp add: contains_cs_iff)
qed

lemma like_invalid:
  "like_match ''%invalid%'' s \<longleftrightarrow> contains_cs ''invalid'' (map to_lower s)"
proof -
  have lit: "like_match ''invalid%'' t \<longleftrightarrow> 
             length ''invalid'' \<le> length t \<and> take (length ''invalid'') (map to_lower t) = ''invalid''" for t
    using like_literal [of "''invalid''" "[CHR ''%'']" t]
    by (simp add: lower_invalid like_percent_only take_map)
  have len: "length ''invalid'' \<le> length t" if "take (length ''invalid'') (map to_lower t) = ''invalid''" for t
  proof -
    have "length (take (length ''invalid'') (map to_lower t)) = length ''invalid''"
      using that by (rule arg_cong)
    then show ?thesis by simp
  qed
  have "like_match ''%invalid%'' s \<longleftrightarrow> (\<exists>k\<le>length s. like_match ''invalid%'' (drop k s))"
    by (rule like_percent)
  also have "\<dots> \<longleftrightarrow> (\<exists>k\<le>length s. take (length ''invalid'') (map to_lower (drop k s)) = ''invalid'')"
    using lit len by blast
  also have "\<dots> \<longleftrightarrow> (\<exists>k\<le>length (map to_lower s). take (length ''invalid'') (drop k (map to_lower s)) = ''invalid'')"
    by (simp only: drop_map length_map)
  finally show ?thesis by (simp only: contains_cs_drop)
qed

subsection \<open>Rows of the cleaned table\<close>

lemma select_rows_all2:
  "select_rows f xs = Inr ys \<Longrightarrow> list_all2 (\<lambda>x y. f x = Inr y) xs ys"
proof (induction xs arbitrary: ys)
  case Nil
  then show ?case by simp
next
  case (Cons x xs)
  then show ?case by (auto split: sum.splits)
qed

lemma select_rows_Inl:
  "select_rows f xs = Inl e \<Longrightarrow> \<exists>x\<in>set xs. f x = Inl e"
proof (induction xs)
  case Nil
  then show ?case by simp
next
  case (Cons x xs)
  then show ?case by (auto split: sum.splits)
qed

lemma select_rows_total:
  "(\<And>x. x \<in> set xs \<Longrightarrow> \<exists>y. f x = Inr y) \<Longrightarrow> \<exists>ys. select_rows f xs = Inr ys"
proof (induction xs)
  case Nil
  then show ?case by simp
next
  case (Cons x xs)
  then obtain y ys where "f x = Inr y" "select_rows f xs = Inr ys"
    by (meson list.set_intros)
  then show ?case by simp
qed

lemma clean_data_rows:
  assumes "raw_sales st = Some rows" and "clean_data eng st = (st', None)"
  shows "\<exists>cs. cleaned_sales st' = Some cs \<and> raw_sales st' = Some rows
              \<and> list_all2 (\<lambda>r c. clean_row eng r = Inr c) rows cs"
proof -
  from assms obtain cs where cs: "select_rows (clean_row eng) rows = Inr cs"
    and st': "st' = st\<lparr>cleaned_sales := Some cs\<rparr>"
    by (auto simp: clean_data_def create_cleaned_if_not_exists_def split: sum.splits)
  from cs have "list_all2 (\<lambda>r c. clean_row eng r = Inr c) rows cs"
    by (rule select_rows_all2)
  with st' assms(1) show ?thesis by simp
qed

lemma clean_data_row:
  assumes "raw_sales st = Some rows" and "clean_data eng st = (st', None)"
    and "cleaned_sales st' = Some cs" and "i < length rows"
  shows "clean_row eng (rows ! i) = Inr (cs ! i)"
proof -
  from clean_data_rows [OF assms(1,2)] assms(3)
  have "list_all2 (\<lambda>r c. clean_row eng r = Inr c) rows cs" by auto
  with assms(4) show ?thesis by (simp add: list_all2_conv_all_nth)
qed

lemma clean_row_Inr:
  assumes "clean_row eng r = Inr c"
  shows "\<exists>q. sql_abs (quantity r) = Inr q \<and> quantity c = q
           \<and> total_amount c = sql_round2 eng (sql_mul eng q (price r))"
    and "customer_name c = clean_customer_name (customer_name r)"
    and "category c = clean_category (category r)"
    and "order_date c = clean_order_date (order_date r)"
    and "price c = price r"
  using assms by (auto simp: clean_row_def split: sum.splits)

lemma clean_row_Inl:
  "clean_row eng r = Inl e \<Longrightarrow> e = IntegerOverflow \<and> abs_overflows r"
  by (auto simp: clean_row_def abs_overflows_def split: sum.splits if_splits
      elim!: sql_abs.elims)

lemma clean_row_total:
  "\<not> abs_overflows r \<Longrightarrow> \<exists>c. clean_row eng r = Inr c"
  by (cases "clean_row eng r") (auto dest: clean_row_Inl)

lemma clean_row_overflow:
  "abs_overflows r \<Longrightarrow> clean_row eng r = Inl IntegerOverflow"
  by (simp add: clean_row_def abs_overflows_def)

lemma select_rows_overflow:
  assumes "\<exists>r\<in>set rows. abs_overflows r"
  shows "select_rows (clean_row eng) rows = Inl IntegerOverflow"
  using assms
proof (induction rows)
  case Nil
  then show ?case by simp
next
  case (Cons r rows)
  show ?case
  proof (cases "abs_overflows r")
    case True
    then show ?thesis by (simp add: clean_row_overflow)
  next
    case False
    with Cons.prems have rest: "\<exists>r\<in>set rows. abs_overflows r" by simp
    from False obtain c where "clean_row eng r = Inr c" using clean_row_total by blast
    with Cons.IH [OF rest] show ?thesis by simp
  qed
qed

subsection \<open>Column expressions\<close>

lemma clean_order_date_eq:
  "clean_order_date d =
     (case d of None \<Rightarrow> None
      | Some s \<Rightarrow> if contains_cs ''invalid'' (map to_lower s) then None else Some s)"
  by (cases d) (simp_all add: clean_order_date_def sql_like_def is_true_def like_invalid)

lemma clean_category_eq: "clean_category c = canonical_category c"
  by (cases c)
    (simp_all add: clean_category_def canonical_category_def canonical_labels_def
      sql_eq_def sql_lower_def is_true_def)

lemma canonical_labels_fix:
  "map_of canonical_labels (map to_lower ''Electronics'') = Some ''Electronics''"
  "map_of canonical_labels (map to_lower ''Furniture'') = Some ''Furniture''"
  "map_of canonical_labels (map to_lower ''Stationery'') = Some ''Stationery''"
  "map_of canonical_labels (map to_lower ''Office'') = Some ''Office''"
  by code_simp+

lemma canonical_fixed:
  assumes "canonical_category c = Some s" and "map_of canonical_labels (map to_lower s) = Some l"
  shows "s = l"
proof (cases c)
  case None
  with assms show ?thesis by (simp add: canonical_category_def)
next
  case (Some raw)
  show ?thesis
  proof (cases "map_of canonical_labels (map to_lower raw)")
    case None
    with Some assms(1) have "s = raw" by (simp add: canonical_category_def)
    with None assms(2) show ?thesis by simp
  next
    case (Some l')
    with \<open>c = Some raw\<close> assms(1) have "s = l'" by (simp add: canonical_category_def)
    from Some consider "l' = ''Electronics''" | "l' = ''Furniture''"
      | "l' = ''Stationery''" | "l' = ''Office''"
      by (auto simp: canonical_labels_def split: if_splits)
    then have "map_of canonical_labels (map to_lower l') = Some l'"
      by cases (simp_all only: canonical_labels_fix)
    with \<open>s = l'\<close> assms(2) show ?thesis by simp
  qed
qed

lemma trim_spaces_padded:
  assumes "set pre \<subseteq> {CHR '' ''}" and "set post \<subseteq> {CHR '' ''}"
    and "w \<noteq> []" and "hd w \<noteq> CHR '' ''" and "last w \<noteq> CHR '' ''"
  shows "trim_spaces (pre @ w @ post) = w"
proof -
  from assms(3) obtain a u where w: "w = a # u" by (cases w) auto
  with assms(4) have a: "a \<noteq> CHR '' ''" by simp
  have "dropWhile (\<lambda>c. c = CHR '' '') (pre @ w @ post) = w @ post"
    using assms(1) a unfolding w by (induction pre) auto
  moreover have "dropWhile (\<lambda>c. c = CHR '' '') (rev post @ rev w) = rev w"
  proof -
    from assms(3) have "rev w \<noteq> []" by simp
    moreover have "hd (rev w) \<noteq> CHR '' ''" using assms(3,5) by (simp add: hd_rev)
    ultimately obtain b v where rw: "rev w = b # v" and "b \<noteq> CHR '' ''"
      by (cases "rev w") auto
    then show ?thesis using assms(2)
      by (simp add: dropWhile_append3 dropWhile_eq_Nil_conv subset_iff)
  qed
  ultimately show ?thesis by (simp add: trim_spaces_def)
qed

lemma clean_customer_name_eq:
  "clean_customer_name cn =
     (if cn = None \<or> cn = Some ''NULL'' then Some ''Unknown Customer''
      else map_option trim_spaces cn)"
  by (cases cn)
    (simp_all add: clean_customer_name_def sql_or_def sql_eq_def sql_is_null_def is_true_def
      sql_trim_def)

subsection \<open>The sign of \<open>total_amount\<close>\<close>














subsection \<open>Claims about the Cleaner\<close>

lemma sample_clean_run:
  "raw_sales sample_store = Some sample_rows"
  "clean_data exact_engine sample_store = (sample_cleaned_store, None)"
  "cleaned_sales sample_cleaned_store = Some sample_cleaned"
  by code_simp+

text \<open>
  Claim C1, as amended.  For every raw row, the cleaned \<open>order_date\<close> is NULL exactly when
  the raw \<open>order_date\<close> is NULL or contains \<open>invalid\<close> as a substring up to ASCII case
  (so \<open>INVALID\<close> and \<open>Invalid\<close> are nulled too); otherwise it is the raw value unchanged.
  \<open>LIKE\<close> folds ASCII case, unlike \<open>=\<close>.
\<close>

theorem order_date_nulled_on_invalid:
  assumes "raw_sales st = Some rows" and "clean_data eng st = (st', None)"
    and "cleaned_sales st' = Some cs" and "i < length rows"
  shows "order_date (cs ! i) =
           (case order_date (rows ! i) of
              None \<Rightarrow> None
            | Some d \<Rightarrow> if contains_cs ''invalid'' (map to_lower d) then None else Some d)"
proof -
  have "clean_row eng (rows ! i) = Inr (cs ! i)"
    using assms by (rule clean_data_row)
  then have "order_date (cs ! i) = clean_order_date (order_date (rows ! i))"
    by (rule clean_row_Inr)
  then show ?thesis by (simp only: clean_order_date_eq)
qed

theorem order_date_nulled_on_invalid_witness:
  "raw_sales sample_store = Some sample_rows
   \<and> clean_data exact_engine sample_store = (sample_cleaned_store, None)
   \<and> cleaned_sales sample_cleaned_store = Some sample_cleaned
   \<and> 0 < length sample_rows
   \<and> order_date (sample_rows ! 0) = Some ''2024-01-05-invalid''
   \<and> order_date (sample_cleaned ! 0) = None"
proof -
  have len: "0 < length sample_rows" by code_simp
  have raw: "order_date (sample_rows ! 0) = Some ''2024-01-05-invalid''" by code_simp
  have sub: "contains_cs ''invalid'' (map to_lower ''2024-01-05-invalid'')" by code_simp
  have "order_date (sample_cleaned ! 0) = None"
    using order_date_nulled_on_invalid [OF sample_clean_run len] sub
    by (simp only: raw option.case if_True)
  with sample_clean_run len raw show ?thesis by blast
qed

text \<open>
  C1 as stated asks for a case-sensitive match.  A raw \<open>order_date\<close> with \<open>INVALID\<close> in
  upper case does not contain the lower-case substring, and the Cleaner still nulls it.
\<close>

theorem order_date_case_sensitive_counterexample:
  "order_date upper_invalid_row = Some ''2024-01-05-INVALID''
   \<and> \<not> contains_cs ''invalid'' ''2024-01-05-INVALID''
   \<and> map_option (map order_date)
        (cleaned_sales (fst (clean_data exact_engine upper_invalid_store)))
       = Some [None]"
  by code_simp




text \<open>
  Claim C4, as amended.  On a store whose raw table has \<open>n\<close> rows, none of them with the
  least 64-bit integer \<open>-9223372036854775808\<close> as quantity, the Cleaner runs to the end and
  leaves a cleaned table of exactly \<open>n\<close> rows, whatever cleaned table the store held before.
  When a quantity is that integer, \<open>ABS\<close> raises \<open>integer overflow\<close> and the store is left
  without a cleaned table.
\<close>

theorem cleaned_row_count:
  assumes "raw_sales st = Some rows"
  shows "(\<not> (\<exists>r\<in>set rows. abs_overflows r)
            \<longrightarrow> (\<exists>cs. clean_data eng st = (st\<lparr>cleaned_sales := Some cs\<rparr>, None)
                      \<and> length cs = length rows))
         \<and> ((\<exists>r\<in>set rows. abs_overflows r)
            \<longrightarrow> clean_data eng st = (st\<lparr>cleaned_sales := None\<rparr>, Some IntegerOverflow))"
proof (intro conjI impI)
  assume "\<not> (\<exists>r\<in>set rows. abs_overflows r)"
  then have "\<exists>cs. select_rows (clean_row eng) rows = Inr cs"
    by (intro select_rows_total clean_row_total) blast
  then obtain cs where cs: "select_rows (clean_row eng) rows = Inr cs" by blast
  then have "list_all2 (\<lambda>r c. clean_row eng r = Inr c) rows cs"
    by (rule select_rows_all2)
  then have "length rows = length cs" by (rule list_all2_lengthD)
  then have "length cs = length rows" by (rule sym)
  moreover from assms cs have "clean_data eng st = (st\<lparr>cleaned_sales := Some cs\<rparr>, None)"
    by (simp add: clean_data_def create_cleaned_if_not_exists_def)
  ultimately show "\<exists>cs. clean_data eng st = (st\<lparr>cleaned_sales := Some cs\<rparr>, None)
                      \<and> length cs = length rows"
    by blast
next
  assume "\<exists>r\<in>set rows. abs_overflows r"
  then have "select_rows (clean_row eng) rows = Inl IntegerOverflow"
    by (rule select_rows_overflow)
  with assms show "clean_data eng st = (st\<lparr>cleaned_sales := None\<rparr>, Some IntegerOverflow)"
    by (simp add: clean_data_def create_cleaned_if_not_exists_def)
qed

theorem cleaned_row_count_witness:
  "raw_sales stale_store = Some sample_rows
   \<and> cleaned_sales stale_store = Some [hd sample_cleaned]
   \<and> list_all (\<lambda>r. \<not> abs_overflows r) sample_rows
   \<and> clean_data exact_engine stale_store = (sample_cleaned_store, None)
   \<and> cleaned_sales sample_cleaned_store = Some sample_cleaned
   \<and> length sample_cleaned = length sample_rows"
proof -
  have raw: "raw_sales stale_store = Some sample_rows" by code_simp
  have old: "cleaned_sales stale_store = Some [hd sample_cleaned]" by code_simp
  have ok: "list_all (\<lambda>r. \<not> abs_overflows r) sample_rows" by code_simp
  have run: "clean_data exact_engine stale_store = (sample_cleaned_store, None)" by code_simp
  have new: "cleaned_sales sample_cleaned_store = Some sample_cleaned" by code_simp
  from ok have "\<not> (\<exists>r\<in>set sample_rows. abs_overflows r)"
    by (simp add: list_all_iff)
  with cleaned_row_count [OF raw, of exact_engine] obtain cs
    where cs: "clean_data exact_engine stale_store = (stale_store\<lparr>cleaned_sales := Some cs\<rparr>, None)"
      and len: "length cs = length sample_rows"
    by blast
  from cs run have "sample_cleaned_store = stale_store\<lparr>cleaned_sales := Some cs\<rparr>" by simp
  then have "cleaned_sales sample_cleaned_store
             = cleaned_sales (stale_store\<lparr>cleaned_sales := Some cs\<rparr>)"
    by (rule arg_cong)
  then have "cleaned_sales sample_cleaned_store = Some cs" by simp
  with new len have "length sample_cleaned = length sample_rows" by simp
  with raw old ok run new show ?thesis by blast
qed

text \<open>
  C4 as stated counts the rows for every raw table.  A raw table of two rows whose second
  quantity is the least 64-bit integer makes the Cleaner raise: the cleaned table of the
  earlier run is dropped and none is created.
\<close>

theorem cleaned_row_count_counterexample:
  "map_option length (raw_sales least_quantity_store) = Some 2
   \<and> quantity least_quantity_row = Some (SqlInt (- 9223372036854775808))
   \<and> snd (clean_data exact_engine least_quantity_store) = Some IntegerOverflow
   \<and> cleaned_sales (fst (clean_data exact_engine least_quantity_store)) = None"
  by code_simp

text \<open>
  Claim C5.  For every raw row, the cleaned category is the capitalized canonical label when
  the raw category equals one of the four lower-case names up to ASCII case, and the raw
  value unchanged otherwise; so a cleaned category that equals a canonical name up to case
  is the canonical label itself.
\<close>

theorem category_canonical:
  assumes "raw_sales st = Some rows" and "clean_data eng st = (st', None)"
    and "cleaned_sales st' = Some cs" and "i < length rows"
  shows "category (cs ! i) = canonical_category (category (rows ! i))
         \<and> (\<forall>s l. category (cs ! i) = Some s
                   \<and> map_of canonical_labels (map to_lower s) = Some l \<longrightarrow> s = l)"
proof -
  have "clean_row eng (rows ! i) = Inr (cs ! i)"
    using assms by (rule clean_data_row)
  then have "category (cs ! i) = clean_category (category (rows ! i))"
    by (rule clean_row_Inr)
  then have eq: "category (cs ! i) = canonical_category (category (rows ! i))"
    by (simp only: clean_category_eq)
  then show ?thesis using canonical_fixed by metis
qed

theorem category_canonical_witness:
  "raw_sales sample_store = Some sample_rows
   \<and> clean_data exact_engine sample_store = (sample_cleaned_store, None)
   \<and> cleaned_sales sample_cleaned_store = Some sample_cleaned
   \<and> 0 < length sample_rows
   \<and> category (sample_rows ! 0) = Some ''ELECTRONICS''
   \<and> category (sample_cleaned ! 0) = Some ''Electronics''
   \<and> map_of canonical_labels (map to_lower ''Electronics'') = Some ''Electronics''"
proof -
  have len: "0 < length sample_rows" by code_simp
  have raw: "category (sample_rows ! 0) = Some ''ELECTRONICS''" by code_simp
  have v: "canonical_category (Some ''ELECTRONICS'') = Some ''Electronics''" by code_simp
  have "category (sample_cleaned ! 0) = Some ''Electronics''"
    using category_canonical [OF sample_clean_run len] by (simp only: raw v)
  with sample_clean_run len raw canonical_labels_fix(1) show ?thesis by blast
qed

text \<open>
  Claim C9, as amended.  The sentinel check on \<open>customer_name\<close> is an exact comparison
  made before trimming: only NULL and the exact string \<open>NULL\<close> become
  \<open>Unknown Customer\<close>; every other value has its leading and trailing space characters
  (byte \<open>0x20\<close>) removed, so \<open>NULL\<close> padded with spaces becomes the literal \<open>NULL\<close>.
\<close>

theorem customer_name_sentinel:
  assumes "raw_sales st = Some rows" and "clean_data eng st = (st', None)"
    and "cleaned_sales st' = Some cs" and "i < length rows"
  shows "customer_name (cs ! i) =
           (if customer_name (rows ! i) = None \<or> customer_name (rows ! i) = Some ''NULL''
            then Some ''Unknown Customer''
            else map_option trim_spaces (customer_name (rows ! i)))
         \<and> (\<forall>pre post. set pre \<subseteq> {CHR '' ''} \<and> set post \<subseteq> {CHR '' ''} \<and> pre @ post \<noteq> []
                \<and> customer_name (rows ! i) = Some (pre @ ''NULL'' @ post)
              \<longrightarrow> customer_name (cs ! i) = Some ''NULL'')"
proof -
  have "clean_row eng (rows ! i) = Inr (cs ! i)"
    using assms by (rule clean_data_row)
  then have "customer_name (cs ! i) = clean_customer_name (customer_name (rows ! i))"
    by (rule clean_row_Inr)
  then have eq: "customer_name (cs ! i) =
           (if customer_name (rows ! i) = None \<or> customer_name (rows ! i) = Some ''NULL''
            then Some ''Unknown Customer''
            else map_option trim_spaces (customer_name (rows ! i)))"
    by (simp only: clean_customer_name_eq)
  have "customer_name (cs ! i) = Some ''NULL''"
    if pad: "set pre \<subseteq> {CHR '' ''}" "set post \<subseteq> {CHR '' ''}" "pre @ post \<noteq> []"
      and raw: "customer_name (rows ! i) = Some (pre @ ''NULL'' @ post)" for pre post
  proof -
    have "length (pre @ ''NULL'' @ post) \<noteq> length ''NULL''" using pad(3) by auto
    then have "pre @ ''NULL'' @ post \<noteq> ''NULL''" by metis
    moreover have "trim_spaces (pre @ ''NULL'' @ post) = ''NULL''"
      using pad(1,2) by (rule trim_spaces_padded) simp_all
    ultimately show ?thesis using eq raw by simp
  qed
  with eq show ?thesis by blast
qed

theorem customer_name_sentinel_witness:
  "raw_sales sample_store = Some sample_rows
   \<and> clean_data exact_engine sample_store = (sample_cleaned_store, None)
   \<and> cleaned_sales sample_cleaned_store = Some sample_cleaned
   \<and> 2 < length sample_rows
   \<and> set ''  '' \<subseteq> {CHR '' ''} \<and> ''  '' @ ''  '' \<noteq> []
   \<and> customer_name (sample_rows ! 2) = Some (''  '' @ ''NULL'' @ ''  '')
   \<and> customer_name (sample_cleaned ! 2) = Some ''NULL''"
proof -
  have len: "2 < length sample_rows" by code_simp
  have sp: "set ''  '' \<subseteq> {CHR '' ''}" by simp
  have ne: "''  '' @ ''  '' \<noteq> []" by simp
  have raw: "customer_name (sample_rows ! 2) = Some (''  '' @ ''NULL'' @ ''  '')" by code_simp
  from customer_name_sentinel [OF sample_clean_run len] sp ne raw
  have "customer_name (sample_cleaned ! 2) = Some ''NULL''" by blast
  with sample_clean_run len sp ne raw show ?thesis by blast
qed

text \<open>
  C9 as stated speaks of surrounding whitespace.  \<open>TRIM\<close> removes spaces only: \<open>NULL\<close>
  after a tab is neither replaced nor trimmed to \<open>NULL\<close>.
\<close>

theorem customer_name_whitespace_counterexample:
  "is_whitespace (CHR 0x09)
   \<and> customer_name tab_null_row = Some ([CHR 0x09] @ ''NULL'' @ [])
   \<and> map_option (map customer_name)
        (cleaned_sales (fst (clean_data exact_engine tab_null_store)))
       = Some [Some (CHR 0x09 # ''NULL'')]
   \<and> CHR 0x09 # ''NULL'' \<noteq> ''NULL''"
  by code_simp

text \<open>
  Claim C10.  For every raw row whose category is NULL, the cleaned category is NULL: no
  comparison with a canonical name is true on NULL, and the \<open>ELSE\<close> branch passes it on.
\<close>

theorem null_category_stays_null:
  assumes "raw_sales st = Some rows" and "clean_data eng st = (st', None)"
    and "cleaned_sales st' = Some cs" and "i < length rows"
    and "category (rows ! i) = None"
  shows "category (cs ! i) = None"
proof -
  have "clean_row eng (rows ! i) = Inr (cs ! i)"
    using assms(1-4) by (rule clean_data_row)
  then have "category (cs ! i) = clean_category (category (rows ! i))"
    by (rule clean_row_Inr)
  with assms(5) show ?thesis
    by (simp add: clean_category_def sql_lower_def sql_eq_def is_true_def)
qed

theorem null_category_stays_null_witness:
  "raw_sales sample_store = Some sample_rows
   \<and> clean_data exact_engine sample_store = (sample_cleaned_store, None)
   \<and> cleaned_sales sample_cleaned_store = Some sample_cleaned
   \<and> 1 < length sample_rows
   \<and> category (sample_rows ! 1) = None
   \<and> category (sample_cleaned ! 1) = None"
proof -
  have len: "1 < length sample_rows" by code_simp
  have raw: "category (sample_rows ! 1) = None" by code_simp
  from null_category_stays_null [OF sample_clean_run len raw]
  show ?thesis using sample_clean_run len raw by blast
qed

section \<open>Properties of the Aggregator\<close>

subsection \<open>Comparisons\<close>

lemma real64_le_total: "real64_le a b \<or> real64_le b a"
  by (cases a; cases b) auto

lemma real64_le_trans: "real64_le a b \<Longrightarrow> real64_le b c \<Longrightarrow> real64_le a c"
  by (cases a; cases b; cases c) simp_all

lemma bytes_le_total: "bytes_le a b \<or> bytes_le b a"
proof (induction a arbitrary: b)
  case Nil
  then show ?case by simp
next
  case (Cons c cs)
  show ?case
  proof (cases b)
    case Nil
    then show ?thesis by simp
  next
    case (Cons d ds)
    consider "(of_char c :: nat) < of_char d" | "(of_char d :: nat) < of_char c" | "c = d"
      by (metis of_char_eq_iff linorder_neqE_nat)
    then show ?thesis
    proof cases
      case 1
      with Cons show ?thesis by simp
    next
      case 2
      with Cons show ?thesis by simp
    next
      case 3
      with Cons Cons.IH [of ds] show ?thesis by auto
    qed
  qed
qed

lemma bytes_le_trans: "bytes_le a b \<Longrightarrow> bytes_le b c \<Longrightarrow> bytes_le a c"
proof (induction a arbitrary: b c)
  case Nil
  then show ?case by simp
next
  case (Cons x xs)
  from Cons.prems(1) obtain y ys where b: "b = y # ys" by (cases b) auto
  from Cons.prems(2) b obtain z zs where c: "c = z # zs" by (cases c) auto
  from Cons.prems b c
  have xy: "(of_char x :: nat) < of_char y \<or> (x = y \<and> bytes_le xs ys)"
    and yz: "(of_char y :: nat) < of_char z \<or> (y = z \<and> bytes_le ys zs)"
    by simp_all
  from xy yz have "(of_char x :: nat) < of_char z \<or> (x = z \<and> bytes_le xs zs)"
    using Cons.IH [of ys zs] by (auto intro: less_trans)
  with c show ?case by simp
qed

lemma null_le_total:
  assumes "\<And>a b. le a b \<or> le b a"
  shows "null_le le x y \<or> null_le le y x"
  using assms by (cases x; cases y) auto

lemma null_le_trans:
  assumes "\<And>a b c. le a b \<Longrightarrow> le b c \<Longrightarrow> le a c"
    and "null_le le x y" and "null_le le y z"
  shows "null_le le x z"
  using assms by (cases x; cases y; cases z) auto

lemma lex_le_total:
  assumes "\<And>a b. le1 a b \<or> le1 b a" and "\<And>a b. le2 a b \<or> le2 b a"
  shows "lex_le le1 le2 a b \<or> lex_le le1 le2 b a"
  unfolding lex_le_def using assms(1) [of a b] assms(2) [of a b] by blast

lemma lex_le_trans:
  assumes t1: "\<And>a b c. le1 a b \<Longrightarrow> le1 b c \<Longrightarrow> le1 a c"
    and t2: "\<And>a b c. le2 a b \<Longrightarrow> le2 b c \<Longrightarrow> le2 a c"
    and ab: "lex_le le1 le2 a b" and bc: "lex_le le1 le2 b c"
  shows "lex_le le1 le2 a c"
proof -
  from ab have ab1: "le1 a b" and ab2: "le1 b a \<Longrightarrow> le2 a b"
    unfolding lex_le_def by blast+
  from bc have bc1: "le1 b c" and bc2: "le1 c b \<Longrightarrow> le2 b c"
    unfolding lex_le_def by blast+
  from ab1 bc1 have ac: "le1 a c" by (rule t1)
  show ?thesis
  proof (cases "le1 c a")
    case False
    with ac show ?thesis unfolding lex_le_def by blast
  next
    case True
    from bc1 True have "le1 b a" by (rule t1)
    then have "le2 a b" by (rule ab2)
    moreover from True ab1 have "le1 c b" by (rule t1)
    then have "le2 b c" by (rule bc2)
    ultimately have "le2 a c" by (rule t2)
    with ac True show ?thesis unfolding lex_le_def by blast
  qed
qed

lemma lex_le_first: "lex_le le1 le2 a b \<Longrightarrow> le1 a b"
  unfolding lex_le_def by blast

lemma revenue_le_total: "null_le real64_le x y \<or> null_le real64_le y x"
  by (rule null_le_total) (rule real64_le_total)

lemma revenue_le_trans:
  "null_le real64_le x y \<Longrightarrow> null_le real64_le y z \<Longrightarrow> null_le real64_le x z"
  by (rule null_le_trans [of real64_le]) (blast intro: real64_le_trans)+

lemma text_le_total: "null_le bytes_le x y \<or> null_le bytes_le y x"
  by (rule null_le_total) (rule bytes_le_total)

lemma text_le_trans:
  "null_le bytes_le x y \<Longrightarrow> null_le bytes_le y z \<Longrightarrow> null_le bytes_le x z"
  by (rule null_le_trans [of bytes_le]) (blast intro: bytes_le_trans)+

lemma product_order_total: "product_order a b \<or> product_order b a"
  unfolding product_order_def
  by (intro lex_le_total revenue_le_total text_le_total)

lemma product_key_trans:
  assumes "lex_le (\<lambda>a b. null_le bytes_le (prod_product_name a) (prod_product_name b))
                  (\<lambda>a b. null_le bytes_le (prod_category a) (prod_category b)) a b"
    and "lex_le (\<lambda>a b. null_le bytes_le (prod_product_name a) (prod_product_name b))
                (\<lambda>a b. null_le bytes_le (prod_category a) (prod_category b)) b c"
  shows "lex_le (\<lambda>a b. null_le bytes_le (prod_product_name a) (prod_product_name b))
                (\<lambda>a b. null_le bytes_le (prod_category a) (prod_category b)) a c"
  using _ _ assms
proof (rule lex_le_trans)
  show "null_le bytes_le (prod_product_name a) (prod_product_name c)"
    if "null_le bytes_le (prod_product_name a) (prod_product_name b)"
      and "null_le bytes_le (prod_product_name b) (prod_product_name c)" for a b c
    using that by (rule text_le_trans)
  show "null_le bytes_le (prod_category a) (prod_category c)"
    if "null_le bytes_le (prod_category a) (prod_category b)"
      and "null_le bytes_le (prod_category b) (prod_category c)" for a b c
    using that by (rule text_le_trans)
qed

lemma product_order_trans:
  assumes "product_order a b" and "product_order b c"
  shows "product_order a c"
  using _ _ assms unfolding product_order_def
proof (rule lex_le_trans)
  show "null_le real64_le (prod_revenue c) (prod_revenue a)"
    if "null_le real64_le (prod_revenue b) (prod_revenue a)"
      and "null_le real64_le (prod_revenue c) (prod_revenue b)" for a b c
    using that(2,1) by (rule revenue_le_trans)
  show "lex_le (\<lambda>a b. null_le bytes_le (prod_product_name a) (prod_product_name b))
                (\<lambda>a b. null_le bytes_le (prod_category a) (prod_category b)) a c"
    if "lex_le (\<lambda>a b. null_le bytes_le (prod_product_name a) (prod_product_name b))
                  (\<lambda>a b. null_le bytes_le (prod_category a) (prod_category b)) a b"
      and "lex_le (\<lambda>a b. null_le bytes_le (prod_product_name a) (prod_product_name b))
                (\<lambda>a b. null_le bytes_le (prod_category a) (prod_category b)) b c" for a b c
    using that by (rule product_key_trans)
qed

lemma product_order_revenue:
  "product_order a b \<Longrightarrow> null_le real64_le (prod_revenue b) (prod_revenue a)"
  unfolding product_order_def by (rule lex_le_first)

subsection \<open>Ordering\<close>

lemma set_insert_by: "set (insert_by le x xs) = insert x (set xs)"
  by (induction xs) auto

lemma length_insert_by: "length (insert_by le x xs) = Suc (length xs)"
  by (induction xs) auto

lemma order_by_Cons: "order_by le (x # xs) = insert_by le x (order_by le xs)"
  by (simp add: order_by_def)

lemma set_order_by: "set (order_by le xs) = set xs"
  by (induction xs) (simp_all add: order_by_def set_insert_by)

lemma length_order_by: "length (order_by le xs) = length xs"
  by (induction xs) (simp_all add: order_by_def length_insert_by)

lemma distinct_map_insert_by:
  "distinct (map f (insert_by le x xs)) \<longleftrightarrow> f x \<notin> f ` set xs \<and> distinct (map f xs)"
  by (induction xs) (auto simp: set_insert_by)

lemma distinct_map_order_by:
  "distinct (map f (order_by le xs)) \<longleftrightarrow> distinct (map f xs)"
proof (induction xs)
  case Nil
  then show ?case by (simp add: order_by_def)
next
  case (Cons x xs)
  then show ?case
    by (simp add: order_by_Cons distinct_map_insert_by set_order_by)
qed

lemma sorted_wrt_insert_by:
  assumes total: "\<And>a b. le a b \<or> le b a"
    and trans: "\<And>a b c. le a b \<Longrightarrow> le b c \<Longrightarrow> le a c"
    and "sorted_wrt le xs"
  shows "sorted_wrt le (insert_by le x xs)"
  using assms(3)
proof (induction xs)
  case Nil
  then show ?case by simp
next
  case (Cons y ys)
  show ?case
  proof (cases "le x y")
    case True
    with Cons.prems trans show ?thesis by auto
  next
    case False
    with total have "le y x" by blast
    with Cons False show ?thesis by (auto simp: set_insert_by)
  qed
qed

lemma sorted_wrt_order_by:
  assumes "\<And>a b. le a b \<or> le b a"
    and "\<And>a b c. le a b \<Longrightarrow> le b c \<Longrightarrow> le a c"
  shows "sorted_wrt le (order_by le xs)"
proof (induction xs)
  case Nil
  then show ?case by (simp add: order_by_def)
next
  case (Cons x xs)
  with assms show ?case
    by (simp add: order_by_Cons sorted_wrt_insert_by)
qed

lemma sorted_product_order: "sorted_wrt product_order (order_by product_order es)"
proof (rule sorted_wrt_order_by)
  show "product_order a b \<or> product_order b a" for a b
    by (rule product_order_total)
  show "product_order a c" if "product_order a b" and "product_order b c" for a b c
    using that by (rule product_order_trans)
qed

subsection \<open>Groups\<close>

lemma select_rows_map:
  assumes "select_rows f xs = Inr ys" and "\<And>x y. f x = Inr y \<Longrightarrow> h y = k x"
  shows "map h ys = map k xs"
proof -
  from assms(1) have "list_all2 (\<lambda>x y. f x = Inr y) xs ys" by (rule select_rows_all2)
  then show ?thesis using assms(2) by (induction rule: list_all2_induct) simp_all
qed

lemma list_all2_right:
  "list_all2 P xs ys \<Longrightarrow> y \<in> set ys \<Longrightarrow> \<exists>x\<in>set xs. P x y"
  by (induction rule: list_all2_induct) auto

lemma distinct_group_keys: "distinct (group_keys key rows)"
  by (simp add: group_keys_def)

lemma set_group_keys: "set (group_keys key rows) = key ` set rows"
  by (simp add: group_keys_def)

lemma product_group_Inr:
  assumes "product_group eng rows g = Inr e"
  shows "prod_product_name e = fst g" and "prod_category e = snd g"
    and "prod_revenue e
         = revenue_of eng (group_rows (\<lambda>r. (product_name r, category r)) rows g)"
  using assms by (auto simp: product_group_def Let_def split: sum.splits)

lemma product_query_entries:
  assumes "product_query eng rows = Inr prods"
  shows "\<exists>es. prods = take 10 (order_by product_order es)
          \<and> map (\<lambda>e. (prod_product_name e, prod_category e)) es
              = group_keys (\<lambda>r. (product_name r, category r)) rows
          \<and> (\<forall>e\<in>set es. prod_revenue e = revenue_of eng
                (group_rows (\<lambda>r. (product_name r, category r)) rows
                   (prod_product_name e, prod_category e)))"
proof -
  define G where "G = group_keys (\<lambda>r. (product_name r, category r)) rows"
  from assms obtain es
    where sel: "select_rows (product_group eng rows) G = Inr es"
      and prods: "prods = take 10 (order_by product_order es)"
    unfolding product_query_def G_def by (cases "select_rows (product_group eng rows)
             (group_keys (\<lambda>r. (product_name r, category r)) rows)") simp_all
  have "map (\<lambda>e. (prod_product_name e, prod_category e)) es = map (\<lambda>g. g) G"
    using sel
  proof (rule select_rows_map)
    fix g e
    assume "product_group eng rows g = Inr e"
    then show "(prod_product_name e, prod_category e) = g"
      by (simp add: product_group_Inr)
  qed
  then have keys: "map (\<lambda>e. (prod_product_name e, prod_category e)) es = G" by simp
  have all2: "list_all2 (\<lambda>g e. product_group eng rows g = Inr e) G es"
    using sel by (rule select_rows_all2)
  have revs: "prod_revenue e = revenue_of eng
                (group_rows (\<lambda>r. (product_name r, category r)) rows
                   (prod_product_name e, prod_category e))" if "e \<in> set es" for e
  proof -
    from list_all2_right [OF all2 that] obtain g where g: "product_group eng rows g = Inr e"
      by blast
    then have "(prod_product_name e, prod_category e) = g" by (simp add: product_group_Inr)
    with product_group_Inr(3) [OF g] show ?thesis by simp
  qed
  show ?thesis
    using prods keys revs unfolding G_def by blast
qed

lemma generate_analytics_Inr:
  assumes "cleaned_sales st = Some rows" and "generate_analytics eng st = Inr a"
  shows "category_query eng rows = Inr (an_category a)"
    and "product_query eng rows = Inr (an_product a)"
    and "an_regional a = regional_query eng rows"
    and "an_daily a = daily_query eng rows"
    and "an_summary a = summary_query eng rows"
  using assms by (auto simp: generate_analytics_def split: sum.splits)

subsection \<open>Claims about the Aggregator\<close>

lemma sample_analytics_run:
  "cleaned_sales sample_cleaned_store = Some sample_cleaned"
  "generate_analytics exact_engine sample_cleaned_store = Inr sample_analytics"
  by code_simp+

text \<open>
  Claim C6.  For every cleaned table, the product view has at most 10 entries (exactly the
  smaller of 10 and the number of different (product name, category) pairs), no two entries
  share their (product name, category) pair, every entry carries the revenue of the rows
  with its pair, and the entries are in descending order of revenue, a NULL revenue
  counting as the smallest.
\<close>

theorem product_view_top10:
  assumes "cleaned_sales st = Some rows" and "generate_analytics eng st = Inr a"
  shows "length (an_product a) \<le> 10
         \<and> length (an_product a) = min 10 (card ((\<lambda>r. (product_name r, category r)) ` set rows))
         \<and> distinct (map (\<lambda>e. (prod_product_name e, prod_category e)) (an_product a))
         \<and> (\<forall>e\<in>set (an_product a).
               (prod_product_name e, prod_category e) \<in> (\<lambda>r. (product_name r, category r)) ` set rows
               \<and> prod_revenue e = revenue_of eng
                    (filter (\<lambda>r. (product_name r, category r) = (prod_product_name e, prod_category e))
                       rows))
         \<and> sorted_wrt (\<lambda>x y. null_le real64_le (prod_revenue y) (prod_revenue x)) (an_product a)"
proof -
  let ?key = "\<lambda>r. (product_name r, category r)"
  let ?ekey = "\<lambda>e. (prod_product_name e, prod_category e)"
  have "product_query eng rows = Inr (an_product a)"
    using assms by (rule generate_analytics_Inr)
  then obtain es where view: "an_product a = take 10 (order_by product_order es)"
    and keys: "map ?ekey es = group_keys ?key rows"
    and revs: "\<forall>e\<in>set es. prod_revenue e = revenue_of eng (group_rows ?key rows (?ekey e))"
    using product_query_entries by blast
  have sub: "set (an_product a) \<subseteq> set es"
    unfolding view using set_take_subset [of 10 "order_by product_order es"]
    by (simp add: set_order_by)
  have "length es = length (group_keys ?key rows)"
    using keys by (metis length_map)
  also have "\<dots> = card (?key ` set rows)"
    unfolding group_keys_def by (simp add: length_remdups_card_conv)
  finally have len: "length (an_product a) = min 10 (card (?key ` set rows))"
    unfolding view by (simp add: length_order_by min.commute)
  have "distinct (map ?ekey es)"
    using keys by (simp add: distinct_group_keys)
  then have "distinct (map ?ekey (order_by product_order es))"
    by (simp only: distinct_map_order_by)
  then have dist: "distinct (map ?ekey (an_product a))"
    unfolding view by (simp add: take_map [symmetric] del: take_map)
  have "?ekey e \<in> ?key ` set rows" if "e \<in> set es" for e
  proof -
    from that have "?ekey e \<in> set (map ?ekey es)" by simp
    then show ?thesis by (simp only: keys set_group_keys)
  qed
  with sub revs have ent: "\<forall>e\<in>set (an_product a). ?ekey e \<in> ?key ` set rows
      \<and> prod_revenue e = revenue_of eng (filter (\<lambda>r. ?key r = ?ekey e) rows)"
    by (auto simp: group_rows_def)
  have "sorted_wrt product_order (order_by product_order es)"
    by (rule sorted_product_order)
  then have "sorted_wrt product_order (an_product a)"
    unfolding view by (rule sorted_wrt_take)
  then have "sorted_wrt (\<lambda>x y. null_le real64_le (prod_revenue y) (prod_revenue x))
               (an_product a)"
    by (rule sorted_wrt_mono_rel [rotated]) (rule product_order_revenue)
  with len dist ent show ?thesis by simp
qed

theorem product_view_top10_witness:
  "cleaned_sales sample_cleaned_store = Some sample_cleaned
   \<and> generate_analytics exact_engine sample_cleaned_store = Inr sample_analytics
   \<and> length (an_product sample_analytics) = 3
   \<and> map prod_revenue (an_product sample_analytics)
       = [Some (Finite 30), Some (Finite (19 / 2)), Some (Finite (5 / 2))]
   \<and> sorted_wrt (\<lambda>x y. null_le real64_le (prod_revenue y) (prod_revenue x))
        (an_product sample_analytics)"
proof -
  have n: "length (an_product sample_analytics) = 3" by code_simp
  have r: "map prod_revenue (an_product sample_analytics)
           = [Some (Finite 30), Some (Finite (19 / 2)), Some (Finite (5 / 2))]"
    by code_simp
  from product_view_top10 [OF sample_analytics_run]
  have "sorted_wrt (\<lambda>x y. null_le real64_le (prod_revenue y) (prod_revenue x))
          (an_product sample_analytics)" by blast
  with sample_analytics_run n r show ?thesis by blast
qed

text \<open>Twelve products with pairwise equal revenues: the view keeps the ten largest, in
  descending order of revenue, tied products in ascending order of name.\<close>

lemma product_view_truncates:
  "map_sum id (\<lambda>a. map (\<lambda>e. (prod_product_name e, prod_revenue e)) (an_product a))
     (generate_analytics exact_engine twelve_store)
   = Inr [(Some ''k'', Some (Finite 5)), (Some ''l'', Some (Finite 5)),
          (Some ''i'', Some (Finite 4)), (Some ''j'', Some (Finite 4)),
          (Some ''g'', Some (Finite 3)), (Some ''h'', Some (Finite 3)),
          (Some ''e'', Some (Finite 2)), (Some ''f'', Some (Finite 2)),
          (Some ''c'', Some (Finite 1)), (Some ''d'', Some (Finite 1))]"
  by code_simp

section \<open>Properties of the whole run\<close>

lemma clean_data_fresh:
  "clean_data eng (create_database st df)
   = clean_data eng \<lparr> raw_sales = Some df, cleaned_sales = None \<rparr>"
  by (cases st) (simp add: clean_data_def create_database_def)

lemma main_fresh:
  "main eng st df = main eng \<lparr> raw_sales = Some df, cleaned_sales = None \<rparr> df"
  by (simp only: main_def Let_def clean_data_fresh)

text \<open>
  Claim C8.  The outcome of a run (the store it leaves, the document it writes, the
  exception that ends it) depends on the source data only, not on the store it starts from;
  so a second run on the same source, started from the store the first run left, writes the
  same document.
\<close>

theorem pipeline_idempotent:
  "main eng st df = main eng st' df
   \<and> snd (main eng (fst (main eng st df)) df) = snd (main eng st df)"
proof -
  have "main eng s df = main eng \<lparr> raw_sales = Some df, cleaned_sales = None \<rparr> df" for s
    by (rule main_fresh)
  then show ?thesis by metis
qed

text \<open>A run on the sample data, started from an empty store and from the store it left.\<close>

lemma sample_run_twice:
  "snd (main exact_engine empty_store sample_rows)
   = snd (main exact_engine (fst (main exact_engine empty_store sample_rows)) sample_rows)"
  "fst (main exact_engine empty_store sample_rows) = sample_cleaned_store"
  "fst (snd (main exact_engine empty_store sample_rows)) \<noteq> None"
  "snd (snd (main exact_engine empty_store sample_rows)) = None"
  by code_simp+

lemma empty_table_views:
  "generate_analytics eng empty_run_store = Inr empty_analytics"
  by (simp add: generate_analytics_def empty_run_store_def empty_analytics_def
      category_query_def product_query_def regional_query_def daily_query_def
      summary_query_def group_keys_def order_by_def revenue_of_def average_of_def
      sql_sum_real_def sql_avg_real_def count_distinct_def)

lemma empty_table_export: "export_to_json empty_analytics = Inl TypeError"
  by (simp add: export_to_json_def empty_analytics_def py_float_def)

text \<open>
  Claim C2 fails on the code.  On a header-only source the Cleaner and the Aggregator
  complete: the store holds two empty tables, the four list views are empty and the summary
  row is \<open>(NULL, 0, 0, NULL)\<close>.  The Exporter then evaluates \<open>float(None)\<close> for
  \<open>total_revenue\<close>: the run ends with \<open>TypeError\<close> and no document is written.
\<close>

theorem empty_source_raises:
  "main eng st [] = (empty_run_store, None, Some TypeError)
   \<and> generate_analytics eng empty_run_store = Inr empty_analytics
   \<and> export_to_json empty_analytics = Inl TypeError"
proof -
  have clean: "clean_data eng \<lparr> raw_sales = Some [], cleaned_sales = None \<rparr>
               = (empty_run_store, None)"
    by (simp add: clean_data_def create_cleaned_if_not_exists_def empty_run_store_def)
  have "main eng \<lparr> raw_sales = Some [], cleaned_sales = None \<rparr> []
        = (empty_run_store, None, Some TypeError)"
    by (simp add: main_def clean_data_fresh clean empty_table_views empty_table_export)
  then have "main eng st [] = (empty_run_store, None, Some TypeError)"
    by (simp only: main_fresh [of eng st])
  with empty_table_views empty_table_export show ?thesis by simp
qed

end
